theory Spec2Isabelle
  imports Main "HOL-Library.Sublist"
begin

section \<open>Text: code points, whitespace, case mapping\<close>

text \<open>
  A Python \<open>str\<close> is a sequence of Unicode code points, modelled as a list of natural
  numbers. The literals of the program are ASCII; \<open>asc\<close> turns an ASCII literal into its
  code points.
\<close>

type_synonym str = "nat list"

definition asc :: "string \<Rightarrow> str" where
  "asc s = map of_char s"

text \<open>
  Whitespace, as \<open>str.isspace\<close>, \<open>str.strip()\<close> and the regular expression class \<open>\s\<close>
  decide it: the ASCII characters 9 to 13, 28 to 31 and 32, and the code points U+0085,
  U+00A0, U+1680, U+2000 to U+200A, U+2028, U+2029, U+202F, U+205F and U+3000.
\<close>

definition is_space :: "nat \<Rightarrow> bool" where
  "is_space c =
     ((9 \<le> c \<and> c \<le> 13) \<or> (28 \<le> c \<and> c \<le> 32) \<or> c = 0x85 \<or> c = 0xA0 \<or> c = 0x1680
      \<or> (0x2000 \<le> c \<and> c \<le> 0x200A) \<or> c = 0x2028 \<or> c = 0x2029 \<or> c = 0x202F
      \<or> c = 0x205F \<or> c = 0x3000)"

text \<open>
  The case mappings of \<open>str.lower()\<close> and \<open>str.capitalize()\<close> come from the Unicode
  database of the interpreter, which is no part of the program. They are fixed here where
  the program's literals and the statements below need them, and are a parameter
  everywhere else:
  \<^item> \<open>lower()\<close> on a text of ASCII characters, U+0131 (dotless i) and U+017F (long s) maps
    A-Z to a-z and leaves every other character as it is;
  \<^item> \<open>capitalize()\<close> on an ASCII text maps a first character a-z to A-Z and the later
    characters A-Z to a-z;
  \<^item> on any other text the result is what the tables \<open>lower_beyond\<close> and
    \<open>capitalize_beyond\<close> give, of which nothing is assumed.
\<close>

record unicode_tables =
  lower_beyond :: "str \<Rightarrow> str"
  capitalize_beyond :: "str \<Rightarrow> str"

definition lower_ascii :: "nat \<Rightarrow> nat" where
  "lower_ascii c = (if 65 \<le> c \<and> c \<le> 90 then c + 32 else c)"

definition upper_ascii :: "nat \<Rightarrow> nat" where
  "upper_ascii c = (if 97 \<le> c \<and> c \<le> 122 then c - 32 else c)"

definition lower_fixed :: "nat \<Rightarrow> bool" where
  "lower_fixed c = (c < 128 \<or> c = 0x131 \<or> c = 0x17F)"

text \<open>\<open>s.lower()\<close>\<close>

definition py_lower :: "unicode_tables \<Rightarrow> str \<Rightarrow> str" where
  "py_lower u s = (if list_all lower_fixed s then map lower_ascii s else lower_beyond u s)"

text \<open>\<open>s.capitalize()\<close>\<close>

definition py_capitalize :: "unicode_tables \<Rightarrow> str \<Rightarrow> str" where
  "py_capitalize u s =
     (if list_all (\<lambda>c. c < 128) s
      then (case s of [] \<Rightarrow> [] | c # cs \<Rightarrow> upper_ascii c # map lower_ascii cs)
      else capitalize_beyond u s)"

text \<open>
  Tables that change nothing, for closed examples: a text inside the fixed part never
  consults them.
\<close>

definition no_tables :: unicode_tables where
  "no_tables = \<lparr>lower_beyond = (\<lambda>s. s), capitalize_beyond = (\<lambda>s. s)\<rparr>"

text \<open>\<open>s.strip()\<close>\<close>

definition py_strip :: "str \<Rightarrow> str" where
  "py_strip s = rev (dropWhile is_space (rev (dropWhile is_space s)))"

text \<open>\<open>sep.join(xs)\<close>\<close>

fun join :: "str \<Rightarrow> str list \<Rightarrow> str" where
  "join sep [] = []"
| "join sep [x] = x"
| "join sep (x # y # ys) = x @ sep @ join sep (y # ys)"


section \<open>Paragraph generation\<close>

text \<open>
  \<open>generate_areas_paragraph\<close>: the introduction sentence, then one paragraph for each need
  that is selected and has a non-empty description, in the order of the source.
\<close>

definition generate_areas_paragraph ::
  "unicode_tables \<Rightarrow> str \<Rightarrow> str \<Rightarrow> str \<Rightarrow> str \<Rightarrow> str \<Rightarrow> str \<Rightarrow> str list \<Rightarrow> str" where
  "generate_areas_paragraph u client_name mental_health communication_issues decision_issues
      behavior_issues mobility_issues selected_needs =
    (let base = client_name @ asc '' is currently navigating '' @ mental_health
                  @ asc '', while seeking housing services.\<newline>\<newline>'';
         paragraphs =
           (if asc ''Communication'' \<in> set selected_needs \<and> communication_issues \<noteq> []
            then [asc ''Communication: '' @ py_capitalize u communication_issues] else [])
         @ (if asc ''Decision Making'' \<in> set selected_needs \<and> decision_issues \<noteq> []
            then [asc ''Decision Making: '' @ py_capitalize u decision_issues] else [])
         @ (if asc ''Managing Challenging Behaviors'' \<in> set selected_needs
               \<and> behavior_issues \<noteq> []
            then [asc ''Managing Challenging Behaviors: '' @ py_capitalize u behavior_issues]
            else [])
         @ (if asc ''Mobility'' \<in> set selected_needs \<and> mobility_issues \<noteq> []
            then [asc ''Mobility: '' @ py_capitalize u mobility_issues] else [])
     in base @ join (asc ''\<newline>\<newline>'') paragraphs)"

text \<open>
  The value of the local \<open>referrals_str\<close> of \<open>generate_support_paragraph\<close>, computed when
  \<open>referrals\<close> is not empty: \<open>", ".join(referrals[:-1]) + ", and " + referrals[-1]\<close> when there
  is more than one referral, \<open>referrals[0]\<close> otherwise.
\<close>

definition referrals_str :: "str list \<Rightarrow> str" where
  "referrals_str referrals =
    (if length referrals > 1
     then join (asc '', '') (butlast referrals) @ asc '', and '' @ last referrals
     else hd referrals)"

definition generate_support_paragraph ::
  "unicode_tables \<Rightarrow> str \<Rightarrow> str \<Rightarrow> str \<Rightarrow> str \<Rightarrow> str list \<Rightarrow> str" where
  "generate_support_paragraph u client_name service_type housing_actions support_actions
      referrals =
    (let service_str = py_lower u service_type;
         base = client_name @ asc '' is starting with '' @ service_str
                  @ asc '' services.\<newline>\<newline>'';
         sentences =
           (if housing_actions \<noteq> []
            then [asc ''A provider will assist '' @ client_name @ asc '' by ''
                    @ housing_actions @ asc ''.'']
            else [])
         @ (if support_actions \<noteq> []
            then [asc ''They will also provide support with '' @ support_actions @ asc ''.'']
            else [])
         @ (if referrals \<noteq> []
            then [asc ''Additionally, the provider will connect '' @ client_name
                    @ asc '' with resources for '' @ referrals_str referrals @ asc ''.'']
            else [])
     in base @ join (asc '' '') sentences)"

section \<open>Regular expressions as backtracking matchers\<close>

text \<open>
  The regular expressions of the source are embedded as matchers in continuation-passing
  style, which is how the backtracking engine of \<open>re\<close> runs them: a matcher takes the text
  at the current position and returns the result of the first successful way to go on, or
  \<open>None\<close>.

  All of them are compiled with \<open>re.IGNORECASE\<close>. Their literal characters are lower-case
  ASCII letters, the space and punctuation. Such a pattern character \<open>p\<close> matches the
  character \<open>c\<close> of the text when \<open>c\<close> is \<open>p\<close>, or \<open>p\<close> is a letter and \<open>c\<close> its upper-case form,
  or \<open>c\<close> is one of the code points that \<open>re\<close> folds onto an ASCII letter: U+0130 and U+0131
  onto i, U+017F onto s, U+212A onto k.
\<close>

type_synonym 'a matcher = "str \<Rightarrow> 'a option"

definition ci_match :: "nat \<Rightarrow> nat \<Rightarrow> bool" where
  "ci_match p c =
     (c = p \<or>
      (97 \<le> p \<and> p \<le> 122 \<and>
       (c + 32 = p \<or> (p = 105 \<and> (c = 0x130 \<or> c = 0x131)) \<or> (p = 115 \<and> c = 0x17F)
        \<or> (p = 107 \<and> c = 0x212A))))"

fun ci_prefix :: "str \<Rightarrow> str \<Rightarrow> bool" where
  "ci_prefix [] s = True"
| "ci_prefix (p # ps) [] = False"
| "ci_prefix (p # ps) (c # cs) = (ci_match p c \<and> ci_prefix ps cs)"

text \<open>A literal of the pattern, followed by the rest \<open>k\<close> of the pattern.\<close>

definition lit :: "string \<Rightarrow> 'a matcher \<Rightarrow> 'a matcher" where
  "lit p k s = (if ci_prefix (asc p) s then k (drop (length p) s) else None)"

text \<open>An alternation \<open>(m1|m2|...)\<close>: the first branch that leads to a match wins.\<close>

fun alt :: "'a matcher list \<Rightarrow> 'a matcher" where
  "alt [] s = None"
| "alt (m # ms) s = (case m s of Some r \<Rightarrow> Some r | None \<Rightarrow> alt ms s)"

text \<open>
  A captured lazy group \<open>(.*?)\<close> followed by \<open>k\<close>: the rest of the pattern is tried first,
  and only when it fails does the group take one more character. \<open>dot\<close> says which
  characters \<open>.\<close> matches: all of them under \<open>re.DOTALL\<close>, all but the newline otherwise.
\<close>

fun lazy_group :: "(nat \<Rightarrow> bool) \<Rightarrow> 'a matcher \<Rightarrow> (str \<times> 'a) matcher" where
  "lazy_group dot k [] = map_option (Pair []) (k [])"
| "lazy_group dot k (c # cs) =
     (case k (c # cs) of
        Some r \<Rightarrow> Some ([], r)
      | None \<Rightarrow>
          if dot c then map_option (\<lambda>(g, r). (c # g, r)) (lazy_group dot k cs) else None)"

definition dot_all :: "nat \<Rightarrow> bool" where
  "dot_all c = True"

definition dot_line :: "nat \<Rightarrow> bool" where
  "dot_line c = (c \<noteq> 10)"

text \<open>The same without capture, \<open>.*?\<close>.\<close>

definition lazy_skip :: "(nat \<Rightarrow> bool) \<Rightarrow> 'a matcher \<Rightarrow> 'a matcher" where
  "lazy_skip dot k s = map_option snd (lazy_group dot k s)"

text \<open>\<open>$\<close> without \<open>re.MULTILINE\<close>: the end of the text, or just before a final newline.\<close>

definition eos :: "'a matcher \<Rightarrow> 'a matcher" where
  "eos k s = (if s = [] \<or> s = [10] then k s else None)"

text \<open>A lookahead \<open>(?=m)\<close>: \<open>m\<close> has to match here, and consumes nothing.\<close>

definition lookahead :: "'b matcher \<Rightarrow> 'a matcher \<Rightarrow> 'a matcher" where
  "lookahead m k s = (case m s of Some _ \<Rightarrow> k s | None \<Rightarrow> None)"

text \<open>The end of a pattern: the match succeeds and leaves the text after it.\<close>

definition accept :: "str matcher" where
  "accept s = Some s"

text \<open>\<open>re.search\<close>: the match at the leftmost position that has one.\<close>

fun re_search :: "'a matcher \<Rightarrow> 'a matcher" where
  "re_search m [] = m []"
| "re_search m (c # cs) = (case m (c # cs) of Some r \<Rightarrow> Some r | None \<Rightarrow> re_search m cs)"

text \<open>
  \<open>re.findall\<close> for a pattern with one group: the groups of the successive matches, from left
  to right, each search starting where the previous match ended. The scan moves through the
  text one character at a time; \<open>skip\<close> counts the characters of the last match that are
  still to be passed, and the pattern is tried only where \<open>skip\<close> is 0. After an empty
  match the scan goes on at the next character.
\<close>

fun findall_scan :: "(str \<times> str) matcher \<Rightarrow> nat \<Rightarrow> str \<Rightarrow> str list" where
  "findall_scan m skip [] =
     (if skip = 0 then (case m [] of Some (g, rest) \<Rightarrow> [g] | None \<Rightarrow> []) else [])"
| "findall_scan m skip (c # cs) =
     (if skip > 0 then findall_scan m (skip - 1) cs
      else
        (case m (c # cs) of
           None \<Rightarrow> findall_scan m 0 cs
         | Some (g, rest) \<Rightarrow> g # findall_scan m (length cs - length rest) cs))"

definition findall :: "(str \<times> str) matcher \<Rightarrow> str \<Rightarrow> str list" where
  "findall m s = findall_scan m 0 s"

text \<open>\<open>re.sub(r'\s+', ' ', text)\<close>: every maximal run of whitespace becomes one space.\<close>

function re_sub_ws :: "str \<Rightarrow> str" where
  "re_sub_ws [] = []"
| "re_sub_ws (c # cs) =
     (if is_space c then 32 # re_sub_ws (dropWhile is_space cs) else c # re_sub_ws cs)"
  by pat_completeness auto
termination
  by (relation "measure length") (auto simp: less_Suc_eq_le length_dropWhile_le)

section \<open>Extraction of the two sections of page 3\<close>

definition areas_end :: "str matcher" where
  "areas_end = alt [lit ''support instructions'' accept, lit ''moving expenses'' accept,
                    lit ''risks and risk mitigation'' accept, lit ''non-housing'' accept]"

definition areas_tail :: "(str \<times> str) matcher" where
  "areas_tail = lit '' in need of housing'' (lazy_group dot_all areas_end)"

text \<open>
  \<open>areas? in need of housing(.*?)(support instructions|moving expenses|risks and risk
  mitigation|non-housing)\<close>
\<close>

definition areas_pattern :: "(str \<times> str) matcher" where
  "areas_pattern = lit ''area'' (alt [lit ''s'' areas_tail, areas_tail])"

definition support_end :: "str matcher" where
  "support_end = alt [lit ''moving expenses'' accept, lit ''risks and risk mitigation'' accept,
                      lit ''non-housing'' accept, eos accept]"

text \<open>\<open>support instructions(.*?)(moving expenses|risks and risk mitigation|non-housing|$)\<close>\<close>

definition support_pattern :: "(str \<times> str) matcher" where
  "support_pattern = lit ''support instructions'' (lazy_group dot_all support_end)"

text \<open>
  Lines 25 to 38 of \<open>extract_page3_content\<close>: what it returns for the non-empty text of
  page 3.
\<close>

definition normalize_text :: "unicode_tables \<Rightarrow> str \<Rightarrow> str" where
  "normalize_text u text = py_lower u (re_sub_ws text)"

definition page3_sections :: "unicode_tables \<Rightarrow> str \<Rightarrow> str \<times> str" where
  "page3_sections u text0 =
    (let text = normalize_text u text0;
         areas_match = re_search areas_pattern text;
         areas_content = (case areas_match of Some (g, _) \<Rightarrow> py_strip g | None \<Rightarrow> []);
         support_match = re_search support_pattern text;
         support_content = (case support_match of Some (g, _) \<Rightarrow> py_strip g | None \<Rightarrow> [])
     in (areas_content, support_content))"

text \<open>
  The PDF library is outside the program. What it does with the bytes of a document is a
  parameter \<open>pdf_open\<close>: opening them raises, or gives the pages, and \<open>extract_text\<close> on a
  page raises or returns \<open>None\<close> or a text. \<open>st.error\<close> and \<open>st.warning\<close> are recorded as
  messages.
\<close>

datatype 'a outcome = Raises str | Returns 'a


type_synonym page = "str option outcome"


text \<open>
  The phrases the two patterns are built from, for the statements below: a text that is a
  phrase up to the case folding of \<open>re.IGNORECASE\<close>, a phrase that occurs in a text up to
  that folding, where the opening phrase of the areas section starts, and where the areas
  section and the support section may end.
\<close>

definition ci_equal :: "string \<Rightarrow> str \<Rightarrow> bool" where
  "ci_equal p s = list_all2 ci_match (asc p) s"

fun ci_occurs :: "string \<Rightarrow> str \<Rightarrow> bool" where
  "ci_occurs p [] = ci_prefix (asc p) []"
| "ci_occurs p (c # cs) = (ci_prefix (asc p) (c # cs) \<or> ci_occurs p cs)"

definition areas_opening :: "str \<Rightarrow> bool" where
  "areas_opening op \<longleftrightarrow>
     ci_equal ''area in need of housing'' op \<or> ci_equal ''areas in need of housing'' op"

definition areas_open_at :: "str \<Rightarrow> bool" where
  "areas_open_at s \<longleftrightarrow>
     ci_prefix (asc ''area in need of housing'') s
     \<or> ci_prefix (asc ''areas in need of housing'') s"

definition areas_end_keywords :: "string list" where
  "areas_end_keywords = [''support instructions'', ''moving expenses'',
                         ''risks and risk mitigation'', ''non-housing'']"

definition areas_end_at :: "str \<Rightarrow> bool" where
  "areas_end_at s \<longleftrightarrow> (\<exists>kw\<in>set areas_end_keywords. ci_prefix (asc kw) s)"

definition support_end_keywords :: "string list" where
  "support_end_keywords = [''moving expenses'', ''risks and risk mitigation'', ''non-housing'']"

definition support_end_at :: "str \<Rightarrow> bool" where
  "support_end_at s \<longleftrightarrow>
     (\<exists>kw\<in>set support_end_keywords. ci_prefix (asc kw) s) \<or> s = [] \<or> s = [10]"

section \<open>Processing an archive of documents\<close>

text \<open>
  One entry of \<open>patterns\<close>, the dictionary with the keys \<open>file_name\<close>, \<open>areas\<close> and
  \<open>support\<close>.
\<close>

record pattern =
  p_file_name :: str
  p_areas :: str
  p_support :: str








section \<open>Analysis of the extracted paragraphs\<close>

definition section_names :: "string list" where
  "section_names = [''communication'', ''decision making'', ''managing challenging behaviors'']"

definition section_end :: "str matcher" where
  "section_end = alt [lit ''communication'' accept, lit ''decision making'' accept,
                      lit ''managing challenging behaviors'' accept, eos accept]"

text \<open>
  \<open>{section}:(.*?)(?=(communication|decision making|managing challenging behaviors|$))\<close>
\<close>

definition section_pattern :: "string \<Rightarrow> (str \<times> str) matcher" where
  "section_pattern section =
     lit (section @ '':'') (lazy_group dot_all (lookahead section_end accept))"

definition sentence_end :: "str matcher" where
  "sentence_end = alt [lit ''.'' accept, lit ''\<newline>'' accept, eos accept]"

text \<open>\<open>(?:provider will|we will|they will|support will|assist|help)(.*?)(?:\.|\n|$)\<close>\<close>

definition action_pattern :: "(str \<times> str) matcher" where
  "action_pattern =
    (let k = lazy_group dot_line sentence_end
     in alt [lit ''provider will'' k, lit ''we will'' k, lit ''they will'' k,
             lit ''support will'' k, lit ''assist'' k, lit ''help'' k])"

text \<open>\<open>(?:connect|refer|link).*? (?:to|for) (.*?)(?:\.|\n|$)\<close>\<close>

definition referral_pattern :: "(str \<times> str) matcher" where
  "referral_pattern =
    (let k2 = lit '' '' (lazy_group dot_line sentence_end);
         k = lazy_skip dot_line (lit '' '' (alt [lit ''to'' k2, lit ''for'' k2]))
     in alt [lit ''connect'' k, lit ''refer'' k, lit ''link'' k])"

text \<open>
  An entry of \<open>areas_insights\<close> is the dictionary \<open>sections\<close>, kept as the list of its items in
  insertion order; an entry of \<open>support_insights\<close> is a dictionary with three keys.
\<close>

type_synonym areas_insight = "(str \<times> str) list"

record support_insight =
  si_service_type :: str
  si_actions :: "str list"
  si_referrals :: "str list"

text \<open>
  \<open>list(set(referrals))\<close> lists the distinct referrals in the iteration order of a Python set,
  which depends on the hashes of the strings and so on the run. The order is the parameter
  \<open>set_order\<close>; all that is known of it is \<open>set_order_ok\<close>.
\<close>

definition set_order_ok :: "(str list \<Rightarrow> str list) \<Rightarrow> bool" where
  "set_order_ok set_order \<longleftrightarrow> (\<forall>xs. distinct (set_order xs) \<and> set (set_order xs) = set xs)"

text \<open>
  The dictionary \<open>sections\<close> after the loop over the three section names, for a non-empty
  areas text.
\<close>

definition find_sections :: "str \<Rightarrow> areas_insight" where
  "find_sections areas_text =
     concat (map (\<lambda>section.
               case re_search (section_pattern section) areas_text of
                 Some (g, _) \<Rightarrow> [(asc section, py_strip g)]
               | None \<Rightarrow> []) section_names)"

text \<open>The locals \<open>service_type\<close>, \<open>actions\<close> and \<open>referrals\<close>, for a non-empty support text.\<close>

definition find_service_type :: "unicode_tables \<Rightarrow> str \<Rightarrow> str" where
  "find_service_type u support_text =
     (if sublist (asc ''transition'') (py_lower u support_text)
      then asc ''Transitional'' else asc ''Sustaining'')"

definition find_actions :: "str \<Rightarrow> str list" where
  "find_actions support_text =
     (let action_phrases = findall action_pattern support_text
      in filter (\<lambda>phrase. phrase \<noteq> []) (map py_strip action_phrases))"

definition find_referrals :: "str \<Rightarrow> str list" where
  "find_referrals support_text =
     (let referral_phrases = findall referral_pattern support_text
      in filter (\<lambda>phrase. phrase \<noteq> []) (map py_strip referral_phrases))"

text \<open>The body of the loop over \<open>patterns\<close>, on the two lists of insights so far.\<close>

definition analyze_pattern ::
  "unicode_tables \<Rightarrow> (str list \<Rightarrow> str list) \<Rightarrow> areas_insight list \<times> support_insight list
     \<Rightarrow> pattern \<Rightarrow> areas_insight list \<times> support_insight list" where
  "analyze_pattern u set_order st pattern =
    (case st of (areas_insights, support_insights) \<Rightarrow>
       if p_areas pattern = [] \<and> p_support pattern = [] then st
       else
         (let areas_insights' =
                (if p_areas pattern \<noteq> [] then
                   (let sections = find_sections (p_areas pattern)
                    in if sections \<noteq> [] then areas_insights @ [sections] else areas_insights)
                 else areas_insights);
              support_insights' =
                (if p_support pattern \<noteq> [] then
                   (let service_type = find_service_type u (p_support pattern);
                        actions = find_actions (p_support pattern);
                        referrals = find_referrals (p_support pattern)
                    in if actions \<noteq> [] \<or> referrals \<noteq> [] then
                         support_insights @
                           [\<lparr>si_service_type = service_type, si_actions = actions,
                             si_referrals = set_order referrals\<rparr>]
                       else support_insights)
                 else support_insights)
          in (areas_insights', support_insights')))"

definition analyze_paragraphs ::
  "unicode_tables \<Rightarrow> (str list \<Rightarrow> str list) \<Rightarrow> pattern list
     \<Rightarrow> areas_insight list \<times> support_insight list" where
  "analyze_paragraphs u set_order patterns =
     foldl (analyze_pattern u set_order) ([], []) patterns"

text \<open>Two support insights that differ at most in the order of their referrals.\<close>

definition same_insight :: "support_insight \<Rightarrow> support_insight \<Rightarrow> bool" where
  "same_insight a b \<longleftrightarrow>
     si_service_type a = si_service_type b \<and> si_actions a = si_actions b
     \<and> set (si_referrals a) = set (si_referrals b)"

section \<open>The form: validation, then generation\<close>

text \<open>
  The values of the widgets of the form when it is submitted, and the block of \<open>main\<close> under
  \<open>if submitted\<close>: it reports the first missing field with \<open>st.error\<close> and returns, or builds
  the two paragraphs.
\<close>

record form =
  f_client_name :: str
  f_diagnosis :: "str list"
  f_mental_health :: str
  f_selected_needs :: "str list"
  f_communication_issues :: str
  f_decision_issues :: str
  f_behavior_issues :: str
  f_mobility_issues :: str
  f_service_type :: str
  f_housing_actions :: str
  f_support_actions :: str
  f_referrals :: "str list"

definition main_submitted :: "unicode_tables \<Rightarrow> form \<Rightarrow> str + str \<times> str" where
  "main_submitted u f =
    (if f_client_name f = [] then Inl (asc ''Please enter client name'')
     else if f_diagnosis f = [] then Inl (asc ''Please select at least one diagnosis'')
     else if f_selected_needs f = [] then Inl (asc ''Please select at least one assessed need'')
     else
       (let full_diagnosis = join (asc '', '') (f_diagnosis f)
              @ (if py_strip (f_mental_health f) \<noteq> []
                 then asc '' ('' @ f_mental_health f @ asc '')'' else []);
            areas_paragraph = generate_areas_paragraph u (f_client_name f) full_diagnosis
              (f_communication_issues f) (f_decision_issues f) (f_behavior_issues f)
              (f_mobility_issues f) (f_selected_needs f);
            support_paragraph = generate_support_paragraph u (f_client_name f) (f_service_type f)
              (f_housing_actions f) (f_support_actions f) (f_referrals f)
        in Inr (areas_paragraph, support_paragraph)))"

section \<open>Properties of paragraph generation\<close>

lemma asc_append: "asc (a @ b) = asc a @ asc b"
  by (simp add: asc_def)

lemma asc_append_assoc: "asc a @ asc b @ x = asc (a @ b) @ x"
  by (simp add: asc_def)

lemma asc_eq_iff: "asc a = asc b \<longleftrightarrow> a = b"
  by (simp add: asc_def inj_map_eq_map inj_on_def)

lemma asc_Nil_iff: "asc a = [] \<longleftrightarrow> a = []"
  by (simp add: asc_def)

lemmas asc_fold = asc_append[symmetric] asc_append_assoc asc_eq_iff asc_Nil_iff

lemma py_lower_fixed: "list_all lower_fixed s \<Longrightarrow> py_lower u s = map lower_ascii s"
  by (simp add: py_lower_def)

lemma py_capitalize_ascii:
  "list_all (\<lambda>x. x < 128) (c # cs) \<Longrightarrow> py_capitalize u (c # cs) = upper_ascii c # map lower_ascii cs"
  by (simp add: py_capitalize_def)

text \<open>
  C2. For the client Jane Doe with diagnosis summary "depression, anxiety" and the single
  selected need Communication described as "struggles to express needs", the areas paragraph
  is exactly the introduction sentence, a blank line, and the line
  "Communication: Struggles to express needs", whatever the descriptions of the needs that
  are not selected and whatever the case tables outside ASCII.
\<close>

theorem areas_paragraph_jane_doe:
  "generate_areas_paragraph u (asc ''Jane Doe'') (asc ''depression, anxiety'')
      (asc ''struggles to express needs'') d b m [asc ''Communication'']
   = asc ''Jane Doe is currently navigating depression, anxiety, while seeking housing services.\<newline>\<newline>Communication: Struggles to express needs''"
  by code_simp

lemma join_snoc: "xs \<noteq> [] \<Longrightarrow> join sep (xs @ [l]) = join sep xs @ sep @ l"
  by (induction sep xs rule: join.induct) auto

lemma referrals_str_snoc:
  "referrals_str (xs @ [l]) = (if xs = [] then l else join (asc '', '') xs @ asc '', and '' @ l)"
  by (simp add: referrals_str_def)

text \<open>
  C3, as stated, fails for two referrals: the paragraph for the referrals
  "therapy/counseling" and "financial management" reads "therapy/counseling, and financial
  management", with a comma before "and".
\<close>

theorem referrals_two_items_counterexample:
  "generate_support_paragraph no_tables (asc ''Jane Doe'') (asc ''Transitional'') [] []
      [asc ''therapy/counseling'', asc ''financial management'']
   = asc ''Jane Doe is starting with transitional services.\<newline>\<newline>Additionally, the provider will connect Jane Doe with resources for therapy/counseling, and financial management.''
   \<and> generate_support_paragraph no_tables (asc ''Jane Doe'') (asc ''Transitional'') [] []
      [asc ''therapy/counseling'', asc ''financial management'']
   \<noteq> asc ''Jane Doe is starting with transitional services.\<newline>\<newline>Additionally, the provider will connect Jane Doe with resources for therapy/counseling and financial management.''"
  by code_simp

text \<open>
  C3, amended. The referral sentence comes after the sentences before it, and names a single
  referral bare, without "and"; with two or more referrals, exactly two included, the
  referrals but the last are joined with ", " and followed by ", and " and the last one.
\<close>

theorem referrals_joined_with_comma_and:
  "generate_support_paragraph u n st h s (xs @ [l])
   = generate_support_paragraph u n st h s []
     @ (if h = [] \<and> s = [] then [] else asc '' '')
     @ asc ''Additionally, the provider will connect '' @ n @ asc '' with resources for ''
     @ (if xs = [] then l else join (asc '', '') xs @ asc '', and '' @ l) @ asc ''.''"
  by (simp add: generate_support_paragraph_def referrals_str_snoc join_snoc Let_def)

theorem referrals_joined_with_comma_and_witness:
  "generate_support_paragraph no_tables (asc ''Jane Doe'') (asc ''Sustaining'') (asc ''searching'') []
     [asc ''therapy/counseling'', asc ''employment support'', asc ''financial management'']
   = asc ''Jane Doe is starting with sustaining services.\<newline>\<newline>A provider will assist Jane Doe by searching. Additionally, the provider will connect Jane Doe with resources for therapy/counseling, employment support, and financial management.''
   \<and> generate_support_paragraph no_tables (asc ''Jane Doe'') (asc ''Sustaining'') [] []
       [asc ''financial management'']
   = asc ''Jane Doe is starting with sustaining services.\<newline>\<newline>Additionally, the provider will connect Jane Doe with resources for financial management.''"
proof -
  have a: "generate_support_paragraph no_tables (asc ''Jane Doe'') (asc ''Sustaining'')
             (asc ''searching'') [] []
     = asc ''Jane Doe is starting with sustaining services.\<newline>\<newline>A provider will assist Jane Doe by searching.''"
    by code_simp
  have b: "generate_support_paragraph no_tables (asc ''Jane Doe'') (asc ''Sustaining'') [] [] []
     = asc ''Jane Doe is starting with sustaining services.\<newline>\<newline>''"
    by code_simp
  show ?thesis
    using referrals_joined_with_comma_and
            [of no_tables "asc ''Jane Doe''" "asc ''Sustaining''" "asc ''searching''" "[]"
                "[asc ''therapy/counseling'', asc ''employment support'']"
                "asc ''financial management''"]
          referrals_joined_with_comma_and
            [of no_tables "asc ''Jane Doe''" "asc ''Sustaining''" "[]" "[]" "[]"
                "asc ''financial management''"]
    by (simp add: a b asc_fold)
qed



text \<open>
  C5. When the client name is empty, or no diagnosis is selected, or no need is selected,
  the submitted form yields the error message of the first missing field and no paragraphs.
\<close>

theorem validation_refuses_generation:
  assumes "f_client_name f = [] \<or> f_diagnosis f = [] \<or> f_selected_needs f = []"
  shows "main_submitted u f =
           Inl (if f_client_name f = [] then asc ''Please enter client name''
                else if f_diagnosis f = [] then asc ''Please select at least one diagnosis''
                else asc ''Please select at least one assessed need'')"
  using assms by (auto simp: main_submitted_def)

theorem validation_refuses_generation_witness:
  "main_submitted no_tables \<lparr>f_client_name = [], f_diagnosis = [asc ''Mental Illness''],
      f_mental_health = asc ''depression, anxiety'', f_selected_needs = [asc ''Communication''],
      f_communication_issues = asc ''struggles to express needs'', f_decision_issues = [],
      f_behavior_issues = [], f_mobility_issues = [], f_service_type = asc ''Transitional'',
      f_housing_actions = asc ''searching for suitable apartments'',
      f_support_actions = asc ''budgeting assistance'', f_referrals = [asc ''medical care'']\<rparr>
   = Inl (asc ''Please enter client name'')"
  using validation_refuses_generation
    [of "\<lparr>f_client_name = [], f_diagnosis = [asc ''Mental Illness''],
      f_mental_health = asc ''depression, anxiety'', f_selected_needs = [asc ''Communication''],
      f_communication_issues = asc ''struggles to express needs'', f_decision_issues = [],
      f_behavior_issues = [], f_mobility_issues = [], f_service_type = asc ''Transitional'',
      f_housing_actions = asc ''searching for suitable apartments'',
      f_support_actions = asc ''budgeting assistance'', f_referrals = [asc ''medical care'']\<rparr>"
     no_tables]
  by simp

section \<open>Properties of the section splitter\<close>

subsection \<open>Matchers\<close>

lemma length_asc: "length (asc p) = length p"
  by (simp add: asc_def)

lemma ci_prefix_append:
  "ci_prefix (a @ b) s \<longleftrightarrow> ci_prefix a s \<and> ci_prefix b (drop (length a) s)"
  by (induction a s rule: ci_prefix.induct) auto

lemma ci_prefix_drop_occurs: "ci_prefix (asc p) (drop i s) \<Longrightarrow> ci_occurs p s"
proof (induction s arbitrary: i)
  case Nil
  then show ?case by simp
next
  case (Cons c s)
  then show ?case by (cases i) auto
qed

lemma ci_equal_prefix: "ci_equal p op \<Longrightarrow> ci_prefix (asc p) (op @ s)"
  unfolding ci_equal_def
  by (induction "asc p" op arbitrary: p rule: list_all2_induct) (auto simp: asc_def)

lemma ci_equal_length: "ci_equal p op \<Longrightarrow> length op = length p"
  by (auto simp: ci_equal_def asc_def dest: list_all2_lengthD)

lemma lit_lit: "lit a (lit b k) = lit (a @ b) k"
  by (rule ext) (simp add: lit_def asc_append ci_prefix_append length_asc add.commute)

lemma lit_ci_equal: "ci_equal p op \<Longrightarrow> lit p k (op @ s) = k s"
  by (simp add: lit_def ci_equal_prefix ci_equal_length)

lemma lit_SomeD: "lit p k s = Some x \<Longrightarrow> k (drop (length p) s) = Some x"
  by (simp add: lit_def split: if_splits)



lemma re_search_None:
  "\<forall>i\<le>length s. m (drop i s) = None \<Longrightarrow> re_search m s = None"
proof (induction s)
  case Nil
  then show ?case by simp
next
  case (Cons c s)
  from Cons.prems have "m (c # s) = None" by force
  moreover from Cons.prems have "\<forall>i\<le>length s. m (drop i s) = None" by force
  ultimately show ?case using Cons.IH by simp
qed


lemma lazy_group_None:
  "\<forall>i\<le>length s. k (drop i s) = None \<Longrightarrow> lazy_group dot k s = None"
proof (induction s)
  case Nil
  then show ?case by simp
next
  case (Cons c s)
  from Cons.prems have "k (c # s) = None" by force
  moreover from Cons.prems have "\<forall>i\<le>length s. k (drop i s) = None" by force
  ultimately show ?case using Cons.IH by simp
qed

lemma lazy_group_SomeD: "lazy_group dot k s = Some x \<Longrightarrow> \<exists>j\<le>length s. k (drop j s) \<noteq> None"
  by (metis lazy_group_None option.distinct(1))

lemma lit_lazy_group_SomeD:
  assumes "lit p (lazy_group dot k) s = Some x"
  shows "\<exists>n\<ge>length p. k (drop n s) \<noteq> None"
proof -
  from lazy_group_SomeD[OF lit_SomeD[OF assms]] obtain j
    where "k (drop (j + length p) s) \<noteq> None" by auto
  then show ?thesis by (intro exI[of _ "j + length p"]) simp
qed

subsection \<open>The two patterns\<close>

lemma areas_end_iff: "areas_end s \<noteq> None \<longleftrightarrow> areas_end_at s"
  by (auto simp: areas_end_def areas_end_at_def areas_end_keywords_def lit_def accept_def
           split: option.splits)


lemma areas_pattern_alt:
  "areas_pattern = alt [lit ''areas in need of housing'' (lazy_group dot_all areas_end),
                        lit ''area in need of housing'' (lazy_group dot_all areas_end)]"
proof -
  have 1: "lit ''area'' (lit ''s'' areas_tail)
           = lit ''areas in need of housing'' (lazy_group dot_all areas_end)"
    by (simp add: areas_tail_def lit_lit)
  have 2: "lit ''area'' areas_tail = lit ''area in need of housing'' (lazy_group dot_all areas_end)"
    by (simp add: areas_tail_def lit_lit)
  have "areas_pattern s = alt [lit ''area'' (lit ''s'' areas_tail), lit ''area'' areas_tail] s" for s
    by (simp add: areas_pattern_def lit_def split: option.splits)
  then show ?thesis unfolding 1 2 by (intro ext)
qed

lemma areas_pattern_not_open: "\<not> areas_open_at s \<Longrightarrow> areas_pattern s = None"
  by (simp add: areas_pattern_alt lit_def areas_open_at_def)

lemma openings_exclusive:
  "\<not> (ci_prefix (asc ''area in need of housing'') s \<and> ci_prefix (asc ''areas in need of housing'') s)"
proof
  assume a: "ci_prefix (asc ''area in need of housing'') s \<and> ci_prefix (asc ''areas in need of housing'') s"
  have 1: "asc ''area in need of housing'' = asc ''area'' @ asc '' '' @ asc ''in need of housing''"
    by (simp add: asc_fold)
  have 2: "asc ''areas in need of housing'' = asc ''area'' @ asc ''s'' @ asc '' in need of housing''"
    by (simp add: asc_fold)
  from a have "ci_prefix (asc '' '') (drop (length ''area'') s)"
    and "ci_prefix (asc ''s'') (drop (length ''area'') s)"
    unfolding 1 2 by (simp_all add: ci_prefix_append length_asc)
  then show False
    by (cases "drop (length ''area'') s") (simp_all add: asc_def ci_match_def)
qed

lemma areas_pattern_at_opening:
  assumes "areas_opening op"
  shows "areas_pattern (op @ s) = lazy_group dot_all areas_end s"
proof -
  from assms show ?thesis unfolding areas_opening_def
  proof
    assume e: "ci_equal ''area in need of housing'' op"
    from ci_equal_prefix[OF e, of s] openings_exclusive[of "op @ s"]
    have "\<not> ci_prefix (asc ''areas in need of housing'') (op @ s)" by blast
    then have "lit ''areas in need of housing'' (lazy_group dot_all areas_end) (op @ s) = None"
      by (simp add: lit_def)
    then show ?thesis
      by (simp add: areas_pattern_alt lit_ci_equal[OF e] split: option.splits)
  next
    assume e: "ci_equal ''areas in need of housing'' op"
    from ci_equal_prefix[OF e, of s] openings_exclusive[of "op @ s"]
    have "\<not> ci_prefix (asc ''area in need of housing'') (op @ s)" by blast
    then have "lit ''area in need of housing'' (lazy_group dot_all areas_end) (op @ s) = None"
      by (simp add: lit_def)
    then show ?thesis
      by (simp add: areas_pattern_alt lit_ci_equal[OF e] split: option.splits)
  qed
qed

lemma areas_pattern_SomeD:
  assumes "areas_pattern s = Some x"
  shows "\<exists>n\<ge>23. areas_end (drop n s) \<noteq> None"
proof -
  from assms have "lit ''areas in need of housing'' (lazy_group dot_all areas_end) s = Some x
      \<or> lit ''area in need of housing'' (lazy_group dot_all areas_end) s = Some x"
    by (auto simp: areas_pattern_alt split: option.splits)
  then show ?thesis
  proof
    assume "lit ''areas in need of housing'' (lazy_group dot_all areas_end) s = Some x"
    from lit_lazy_group_SomeD[OF this] obtain n
      where "length ''areas in need of housing'' \<le> n" and n: "areas_end (drop n s) \<noteq> None"
      by auto
    then have "23 \<le> n" by simp
    with n show ?thesis by auto
  next
    assume "lit ''area in need of housing'' (lazy_group dot_all areas_end) s = Some x"
    from lit_lazy_group_SomeD[OF this] obtain n
      where "length ''area in need of housing'' \<le> n" and n: "areas_end (drop n s) \<noteq> None"
      by auto
    then have "23 \<le> n" by simp
    with n show ?thesis by auto
  qed
qed



lemmas splitter_eval = asc_def is_space_def ci_match_def lit_def areas_pattern_def areas_tail_def
  areas_end_def support_pattern_def support_end_def accept_def eos_def dot_all_def
  page3_sections_def normalize_text_def py_lower_def lower_fixed_def lower_ascii_def
  py_strip_def Let_def

lemmas phrases_eval = areas_open_at_def areas_end_at_def support_end_at_def
  areas_end_keywords_def support_end_keywords_def ci_equal_def areas_opening_def




text \<open>
  C8, as stated, fails when the opening phrase is written with a long s: the normalized text
  "area* in need of housing quiet home non-housing", where * stands for U+017F, contains
  neither "area in need of housing" nor "areas in need of housing", and its areas section is
  "quiet home".
\<close>

theorem opening_absent_counterexample:
  "normalize_text no_tables
     (asc ''area'' @ [0x17F] @ asc '' in need of housing quiet home non-housing'')
   = asc ''area'' @ [0x17F] @ asc '' in need of housing quiet home non-housing''
   \<and> \<not> sublist (asc ''area in need of housing'')
         (asc ''area'' @ [0x17F] @ asc '' in need of housing quiet home non-housing'')
   \<and> \<not> sublist (asc ''areas in need of housing'')
         (asc ''area'' @ [0x17F] @ asc '' in need of housing quiet home non-housing'')
   \<and> fst (page3_sections no_tables
        (asc ''area'' @ [0x17F] @ asc '' in need of housing quiet home non-housing''))
     = asc ''quiet home''"
  by (simp add: splitter_eval phrases_eval no_tables_def sublist_code)

text \<open>
  C8, amended. When neither "area in need of housing" nor "areas in need of housing" occurs
  in the normalized text of the page, where a phrase occurs if it matches somewhere as
  \<open>re.IGNORECASE\<close> matches it (so also with a long s for s or a dotless i for i), the areas
  section is empty.
\<close>

theorem areas_empty_without_opening:
  assumes "\<not> ci_occurs ''area in need of housing'' (normalize_text u raw)"
    and "\<not> ci_occurs ''areas in need of housing'' (normalize_text u raw)"
  shows "fst (page3_sections u raw) = []"
proof -
  let ?t = "normalize_text u raw"
  have "\<not> areas_open_at (drop i ?t)" for i
    using assms ci_prefix_drop_occurs by (auto simp: areas_open_at_def)
  then have "\<forall>i\<le>length ?t. areas_pattern (drop i ?t) = None"
    using areas_pattern_not_open by blast
  then have "re_search areas_pattern ?t = None"
    by (rule re_search_None)
  then show ?thesis by (simp add: page3_sections_def Let_def)
qed

theorem areas_empty_without_opening_witness:
  "\<not> ci_occurs ''area in need of housing''
       (normalize_text no_tables (asc ''Housing needs: none. Support Instructions: call weekly. Non-Housing''))
   \<and> \<not> ci_occurs ''areas in need of housing''
       (normalize_text no_tables (asc ''Housing needs: none. Support Instructions: call weekly. Non-Housing''))
   \<and> page3_sections no_tables (asc ''Housing needs: none. Support Instructions: call weekly. Non-Housing'')
     = ([], asc '': call weekly.'')"
proof -
  let ?raw = "asc ''Housing needs: none. Support Instructions: call weekly. Non-Housing''"
  have a: "\<not> ci_occurs ''area in need of housing'' (normalize_text no_tables ?raw)"
    by (simp add: splitter_eval)
  have b: "\<not> ci_occurs ''areas in need of housing'' (normalize_text no_tables ?raw)"
    by (simp add: splitter_eval)
  have c: "snd (page3_sections no_tables ?raw) = asc '': call weekly.''"
    by (simp add: splitter_eval)
  from areas_empty_without_opening [OF a b] c
  have "page3_sections no_tables ?raw = ([], asc '': call weekly.'')"
    by (simp add: prod_eq_iff)
  with a b show ?thesis by blast
qed

lemma areas_end_at_occurs:
  "areas_end_at (drop k s) \<Longrightarrow> \<exists>kw\<in>set areas_end_keywords. ci_occurs kw s"
  unfolding areas_end_at_def using ci_prefix_drop_occurs by blast

lemma areas_opening_length: "areas_opening op \<Longrightarrow> length op \<le> 24"
  by (auto simp: areas_opening_def dest: ci_equal_length)

text \<open>
  C9, as stated, fails when the end keyword after the opening phrase is written with a long
  s: in the normalized text "areas in need of housing quiet non-hou*ing", where * stands
  for U+017F, none of the four end keywords occurs after the opening phrase, and the areas
  section is "quiet".
\<close>

theorem end_keyword_absent_counterexample:
  "normalize_text no_tables
     (asc ''areas in need of housing quiet non-hou'' @ [0x17F] @ asc ''ing'')
   = asc ''areas in need of housing'' @ (asc '' quiet non-hou'' @ [0x17F] @ asc ''ing'')
   \<and> list_all (\<lambda>kw. \<not> sublist (asc kw) (asc '' quiet non-hou'' @ [0x17F] @ asc ''ing''))
        areas_end_keywords
   \<and> fst (page3_sections no_tables
        (asc ''areas in need of housing quiet non-hou'' @ [0x17F] @ asc ''ing''))
     = asc ''quiet''"
  by (simp add: splitter_eval phrases_eval no_tables_def sublist_code)

text \<open>
  C9, amended. When the normalized text of the page is \<open>pre @ op @ rest\<close>, where \<open>op\<close> is the
  first match of the opening phrase of the areas section and none of the four end keywords
  occurs in \<open>rest\<close>, where phrases and keywords match as \<open>re.IGNORECASE\<close> matches them (so also
  with a long s for s, a dotless i for i and the Kelvin sign for k), the areas section is
  empty: the end of the text does not close it.
\<close>

theorem areas_empty_without_end_keyword:
  assumes t: "normalize_text u raw = pre @ op @ rest"
    and op: "areas_opening op"
    and first: "\<forall>i<length pre. \<not> areas_open_at (drop i (normalize_text u raw))"
    and nokw: "\<forall>kw\<in>set areas_end_keywords. \<not> ci_occurs kw rest"
  shows "fst (page3_sections u raw) = []"
proof -
  let ?t = "normalize_text u raw"
  have len: "length op \<le> 24" using op by (rule areas_opening_length)
  have no_end: "areas_end (drop (length pre + length op + k) ?t) = None" for k
  proof -
    have "drop (length pre + length op + k) ?t = drop k rest" by (simp add: t)
    moreover have "\<not> areas_end_at (drop k rest)"
      using nokw areas_end_at_occurs by blast
    ultimately show ?thesis using areas_end_iff by metis
  qed
  have "areas_pattern (drop i ?t) = None" for i
  proof (cases "i < length pre")
    case True
    then show ?thesis using areas_pattern_not_open first by blast
  next
    case False
    show ?thesis
    proof (cases "i = length pre")
      case True
      have "\<forall>j\<le>length rest. areas_end (drop j rest) = None"
        using no_end by (simp add: t)
      then have "lazy_group dot_all areas_end rest = None"
        by (rule lazy_group_None)
      then show ?thesis
        using True by (simp add: t areas_pattern_at_opening[OF op])
    next
      case False
      with \<open>\<not> i < length pre\<close> have i: "length pre < i" by simp
      show ?thesis
      proof (rule ccontr)
        assume "areas_pattern (drop i ?t) \<noteq> None"
        then obtain x where "areas_pattern (drop i ?t) = Some x" by auto
        from areas_pattern_SomeD[OF this] obtain n
          where n: "23 \<le> n" "areas_end (drop (n + i) ?t) \<noteq> None" by auto
        from n(1) i len have "n + i = length pre + length op + (n + i - length pre - length op)"
          by simp
        with no_end n(2) show False by metis
      qed
    qed
  qed
  then have "re_search areas_pattern ?t = None"
    by (simp add: re_search_None)
  then show ?thesis by (simp add: page3_sections_def Let_def)
qed

theorem areas_empty_without_end_keyword_witness:
  "normalize_text no_tables (asc ''Page 3  Area in Need of Housing: needs a quiet home'')
     = asc ''page 3 '' @ asc ''area in need of housing'' @ asc '': needs a quiet home''
   \<and> areas_opening (asc ''area in need of housing'')
   \<and> list_all (\<lambda>kw. \<not> ci_occurs kw (asc '': needs a quiet home'')) areas_end_keywords
   \<and> fst (page3_sections no_tables (asc ''Page 3  Area in Need of Housing: needs a quiet home''))
     = []"
proof -
  let ?raw = "asc ''Page 3  Area in Need of Housing: needs a quiet home''"
  have n: "normalize_text no_tables ?raw
     = asc ''page 3 '' @ asc ''area in need of housing'' @ asc '': needs a quiet home''"
    by (simp add: splitter_eval)
  have o: "areas_opening (asc ''area in need of housing'')"
    by (simp add: splitter_eval phrases_eval)
  have f: "\<forall>i<length (asc ''page 3 ''). \<not> areas_open_at (drop i (normalize_text no_tables ?raw))"
    unfolding n by (simp add: All_less_Suc splitter_eval phrases_eval)
  have k: "list_all (\<lambda>kw. \<not> ci_occurs kw (asc '': needs a quiet home'')) areas_end_keywords"
    by (simp add: splitter_eval phrases_eval)
  then have k': "\<forall>kw\<in>set areas_end_keywords. \<not> ci_occurs kw (asc '': needs a quiet home'')"
    by (simp only: list_all_iff)
  from areas_empty_without_end_keyword [OF n o f k'] n o k
  show ?thesis by blast
qed

section \<open>Properties of the processing of an archive\<close>







section \<open>Properties of the analysis\<close>

lemmas matcher_eval = asc_def findall_def referral_pattern_def action_pattern_def lit_def
  ci_match_def lazy_skip_def sentence_end_def eos_def accept_def dot_line_def dot_all_def
  lookahead_def section_pattern_def section_end_def section_names_def is_space_def py_strip_def
  py_lower_def lower_fixed_def lower_ascii_def Let_def

lemma analyze_pattern_related:
  assumes "set_order_ok o1" and "set_order_ok o2"
    and "fst st1 = fst st2" and "list_all2 same_insight (snd st1) (snd st2)"
  shows "fst (analyze_pattern u o1 st1 p) = fst (analyze_pattern u o2 st2 p)
         \<and> list_all2 same_insight (snd (analyze_pattern u o1 st1 p)) (snd (analyze_pattern u o2 st2 p))"
proof -
  obtain a1 s1 where st1: "st1 = (a1, s1)" by (cases st1)
  obtain a2 s2 where st2: "st2 = (a2, s2)" by (cases st2)
  have same: "same_insight \<lparr>si_service_type = t, si_actions = acts, si_referrals = o1 rs\<rparr>
                           \<lparr>si_service_type = t, si_actions = acts, si_referrals = o2 rs\<rparr>"
    for t acts rs
    using assms(1,2) by (simp add: same_insight_def set_order_ok_def)
  show ?thesis
    using assms(3,4) same
    by (simp add: analyze_pattern_def st1 st2 Let_def list_all2_appendI)
qed

lemma foldl_analyze_pattern_related:
  assumes "set_order_ok o1" and "set_order_ok o2"
  shows "fst st1 = fst st2 \<Longrightarrow> list_all2 same_insight (snd st1) (snd st2) \<Longrightarrow>
         fst (foldl (analyze_pattern u o1) st1 ps) = fst (foldl (analyze_pattern u o2) st2 ps)
         \<and> list_all2 same_insight (snd (foldl (analyze_pattern u o1) st1 ps))
              (snd (foldl (analyze_pattern u o2) st2 ps))"
proof (induction ps arbitrary: st1 st2)
  case Nil
  then show ?case by simp
next
  case (Cons p ps)
  from analyze_pattern_related[OF assms Cons.prems, of u p] Cons.IH
  show ?case by simp
qed

text \<open>
  C6. Two runs of \<open>analyze_paragraphs\<close> on the same patterns, whatever the iteration orders
  of the sets of referrals in the two runs, give the same areas insights and support insights
  that agree one by one on the service type, on the actions and on the set of referrals.
\<close>

theorem analyze_deterministic:
  assumes "set_order_ok o1" and "set_order_ok o2"
  shows "fst (analyze_paragraphs u o1 ps) = fst (analyze_paragraphs u o2 ps)
         \<and> list_all2 same_insight (snd (analyze_paragraphs u o1 ps)) (snd (analyze_paragraphs u o2 ps))"
  unfolding analyze_paragraphs_def
  using foldl_analyze_pattern_related[OF assms, of "([], [])" "([], [])" u ps] by simp

theorem analyze_deterministic_witness:
  "set_order_ok remdups \<and> set_order_ok (\<lambda>xs. rev (remdups xs))
   \<and> analyze_paragraphs no_tables remdups
        [\<lparr>p_file_name = asc ''a.pdf'', p_areas = asc ''communication: shy'',
          p_support = asc ''we will link him to gym. refer her to spa''\<rparr>]
     = ([[(asc ''communication'', asc ''shy'')]],
        [\<lparr>si_service_type = asc ''Sustaining'', si_actions = [asc ''link him to gym''],
          si_referrals = [asc ''gym'', asc ''spa'']\<rparr>])
   \<and> analyze_paragraphs no_tables (\<lambda>xs. rev (remdups xs))
        [\<lparr>p_file_name = asc ''a.pdf'', p_areas = asc ''communication: shy'',
          p_support = asc ''we will link him to gym. refer her to spa''\<rparr>]
     = ([[(asc ''communication'', asc ''shy'')]],
        [\<lparr>si_service_type = asc ''Sustaining'', si_actions = [asc ''link him to gym''],
          si_referrals = [asc ''spa'', asc ''gym'']\<rparr>])
   \<and> list_all2 same_insight
        (snd (analyze_paragraphs no_tables remdups
          [\<lparr>p_file_name = asc ''a.pdf'', p_areas = asc ''communication: shy'',
            p_support = asc ''we will link him to gym. refer her to spa''\<rparr>]))
        (snd (analyze_paragraphs no_tables (\<lambda>xs. rev (remdups xs))
          [\<lparr>p_file_name = asc ''a.pdf'', p_areas = asc ''communication: shy'',
            p_support = asc ''we will link him to gym. refer her to spa''\<rparr>]))"
proof -
  let ?ps = "[\<lparr>p_file_name = asc ''a.pdf'', p_areas = asc ''communication: shy'',
               p_support = asc ''we will link him to gym. refer her to spa''\<rparr>]"
  have o1: "set_order_ok remdups" by (simp add: set_order_ok_def)
  have o2: "set_order_ok (\<lambda>xs. rev (remdups xs))" by (simp add: set_order_ok_def)
  have s: "find_sections (asc ''communication: shy'') = [(asc ''communication'', asc ''shy'')]"
    by (simp add: find_sections_def matcher_eval)
  have t: "find_service_type no_tables (asc ''we will link him to gym. refer her to spa'')
           = asc ''Sustaining''"
    by (simp add: find_service_type_def matcher_eval sublist_code)
  have a: "find_actions (asc ''we will link him to gym. refer her to spa'')
           = [asc ''link him to gym'']"
    by (simp add: find_actions_def matcher_eval)
  have r: "find_referrals (asc ''we will link him to gym. refer her to spa'')
           = [asc ''gym'', asc ''spa'']"
    by (simp add: find_referrals_def matcher_eval)
  have d: "asc ''communication: shy'' \<noteq> []" "asc ''we will link him to gym. refer her to spa'' \<noteq> []"
    "asc ''gym'' \<noteq> asc ''spa''" "asc ''spa'' \<noteq> asc ''gym''"
    by (simp_all add: asc_fold)
  have e1: "analyze_paragraphs no_tables remdups ?ps
     = ([[(asc ''communication'', asc ''shy'')]],
        [\<lparr>si_service_type = asc ''Sustaining'', si_actions = [asc ''link him to gym''],
          si_referrals = [asc ''gym'', asc ''spa'']\<rparr>])"
    using d by (simp add: analyze_paragraphs_def analyze_pattern_def s t a r)
  have e2: "analyze_paragraphs no_tables (\<lambda>xs. rev (remdups xs)) ?ps
     = ([[(asc ''communication'', asc ''shy'')]],
        [\<lparr>si_service_type = asc ''Sustaining'', si_actions = [asc ''link him to gym''],
          si_referrals = [asc ''spa'', asc ''gym'']\<rparr>])"
    using d by (simp add: analyze_paragraphs_def analyze_pattern_def s t a r)
  from analyze_deterministic [OF o1 o2, of no_tables ?ps] o1 o2 e1 e2
  show ?thesis by (simp only: simp_thms)
qed

lemma analyze_pattern_distinct:
  assumes "set_order_ok set_order"
    and "\<forall>si\<in>set (snd st). distinct (si_referrals si)"
  shows "\<forall>si\<in>set (snd (analyze_pattern u set_order st p)). distinct (si_referrals si)"
proof -
  obtain a s where st: "st = (a, s)" by (cases st)
  show ?thesis
    using assms by (auto simp: analyze_pattern_def st Let_def set_order_ok_def)
qed

lemma foldl_analyze_pattern_distinct:
  assumes "set_order_ok set_order"
  shows "\<forall>si\<in>set (snd st). distinct (si_referrals si) \<Longrightarrow>
         \<forall>si\<in>set (snd (foldl (analyze_pattern u set_order) st ps)). distinct (si_referrals si)"
proof (induction ps arbitrary: st)
  case Nil
  then show ?case by simp
next
  case (Cons p ps)
  from analyze_pattern_distinct[OF assms Cons.prems, of u p] Cons.IH
  show ?case by simp
qed

text \<open>
  C7. In every support insight that \<open>analyze_paragraphs\<close> returns, the list of referrals has
  no two equal entries.
\<close>

theorem referrals_without_duplicates:
  assumes "set_order_ok set_order"
  shows "\<forall>si\<in>set (snd (analyze_paragraphs u set_order ps)). distinct (si_referrals si)"
  unfolding analyze_paragraphs_def
  using foldl_analyze_pattern_distinct[OF assms, of "([], [])" u ps] by simp

theorem referrals_without_duplicates_witness:
  "set_order_ok remdups
   \<and> find_referrals (asc ''refer her to gym. link him to gym'') = [asc ''gym'', asc ''gym'']
   \<and> snd (analyze_paragraphs no_tables remdups
        [\<lparr>p_file_name = asc ''a.pdf'', p_areas = [],
          p_support = asc ''refer her to gym. link him to gym''\<rparr>])
     = [\<lparr>si_service_type = asc ''Sustaining'', si_actions = [], si_referrals = [asc ''gym'']\<rparr>]
   \<and> list_all (\<lambda>si. distinct (si_referrals si))
        (snd (analyze_paragraphs no_tables remdups
          [\<lparr>p_file_name = asc ''a.pdf'', p_areas = [],
            p_support = asc ''refer her to gym. link him to gym''\<rparr>]))"
proof -
  let ?ps = "[\<lparr>p_file_name = asc ''a.pdf'', p_areas = [],
               p_support = asc ''refer her to gym. link him to gym''\<rparr>]"
  have o: "set_order_ok remdups" by (simp add: set_order_ok_def)
  have t: "find_service_type no_tables (asc ''refer her to gym. link him to gym'')
           = asc ''Sustaining''"
    by (simp add: find_service_type_def matcher_eval sublist_code)
  have a: "find_actions (asc ''refer her to gym. link him to gym'') = []"
    by (simp add: find_actions_def matcher_eval)
  have r: "find_referrals (asc ''refer her to gym. link him to gym'') = [asc ''gym'', asc ''gym'']"
    by (simp add: find_referrals_def matcher_eval)
  have d: "asc ''refer her to gym. link him to gym'' \<noteq> []"
    by (simp add: asc_fold)
  have e: "snd (analyze_paragraphs no_tables remdups ?ps)
     = [\<lparr>si_service_type = asc ''Sustaining'', si_actions = [], si_referrals = [asc ''gym'']\<rparr>]"
    using d by (simp add: analyze_paragraphs_def analyze_pattern_def t a r)
  from referrals_without_duplicates [OF o, of no_tables ?ps] o r e
  show ?thesis by (simp only: simp_thms list_all_iff)
qed

end
